theory Spec2Isabelle
  imports Main "HOL-Library.Word"
begin

unbundle bit_operations_syntax

section \<open>Data model of the terminal display\<close>

text \<open>
  The development embeds the grid-handling part of \<^verbatim>\<open>konsole/TerminalDisplay.cpp\<close>:
  the displayed character image, the scroll shift, the image update that compares the
  displayed image with the incoming one, the conversion of widget points to cells and the
  mouse selection.  C++ \<^verbatim>\<open>int\<close> values are modelled as \<^typ>\<open>int\<close>; the sizes involved are
  grid dimensions and pixel offsets, far from the 32-bit limits, and no wrap-around is
  modelled.  A failed \<^verbatim>\<open>assert\<close>, a division by zero and the use of a null image are
  values of type \<open>error\<close>.
\<close>

datatype error = AssertionFailed | DivisionByZero | NullDereference

text \<open>
  Modelled from the spec: the colour reference type \<^verbatim>\<open>CharacterColor\<close> is declared outside the
  translated file.  It is a comparable value made of a colour space and an index; the
  default-constructed value is \<open>CharacterColor 0 0\<close>.
\<close>

datatype CharacterColor = CharacterColor nat nat

text \<open>
  Modelled from the spec: the cell type \<^verbatim>\<open>Character\<close> is declared outside the translated
  file.  A cell has a 16-bit character code (0 is the continuation of a double-width cell),
  an 8-bit rendition set and two colour references.
\<close>

record Character =
  character :: "16 word"
  rendition :: "8 word"
  foregroundColor :: CharacterColor
  backgroundColor :: CharacterColor

text \<open>
  Modelled from the spec: the constants below come from headers outside the translated file
  (the defaults used by \<^verbatim>\<open>clearImage\<close>, the rendition bit for blinking and the line property
  bits).  The theorems do not depend on the values chosen here, only on the flags being
  tested with a bitwise and.
\<close>

definition COLOR_SPACE_DEFAULT :: nat where "COLOR_SPACE_DEFAULT = 1"
definition DEFAULT_FORE_COLOR :: nat where "DEFAULT_FORE_COLOR = 0"
definition DEFAULT_BACK_COLOR :: nat where "DEFAULT_BACK_COLOR = 1"
definition DEFAULT_RENDITION :: "8 word" where "DEFAULT_RENDITION = 0"
definition RE_BLINK :: "8 word" where "RE_BLINK = 2"
definition LINE_WRAPPED :: "8 word" where "LINE_WRAPPED = 1"
definition LINE_DOUBLEWIDTH :: "8 word" where "LINE_DOUBLEWIDTH = 2"
definition LINE_DOUBLEHEIGHT :: "8 word" where "LINE_DOUBLEHEIGHT = 4"

text \<open>Qt's \<^verbatim>\<open>QPoint\<close> and \<^verbatim>\<open>QRect\<close> (left, top, width, height).\<close>

record QPoint =
  ptX :: int
  ptY :: int

record QRect =
  rectX :: int
  rectY :: int
  rectW :: int
  rectH :: int

text \<open>
  The calls the display makes on its screen window to communicate a selection, in the
  order they are made.
\<close>

datatype SelectionCall =
    ClearSelection
  | SetSelectionStart int int bool
  | SetSelectionEnd int int

text \<open>
  Modelled from the spec: \<^verbatim>\<open>ScreenWindow\<close> is declared outside the translated file.  The
  display reads the pending scroll count, the incoming image with its dimensions, the
  scroll position and the line properties from it, and sends it the selection calls,
  which are recorded in \<open>selectionCalls\<close>.
\<close>

record ScreenWindow =
  scrollCount :: int
  getImage :: "Character list"
  windowLines :: int
  windowColumns :: int
  currentLine :: int
  lineCount :: int
  selectionCalls :: "SelectionCall list"

text \<open>
  Qt's scroll bar, reduced to its range and value.  \<^verbatim>\<open>setValue\<close> keeps the value inside the
  range and \<^verbatim>\<open>setRange\<close> keeps the range ordered, as Qt documents.
\<close>

record QScrollBar =
  sbValue :: int
  sbMinimum :: int
  sbMaximum :: int

definition sbSetValue :: "QScrollBar \<Rightarrow> int \<Rightarrow> QScrollBar" where
  "sbSetValue sb v = sb\<lparr>sbValue := max (sbMinimum sb) (min (sbMaximum sb) v)\<rparr>"

definition sbSetRange :: "QScrollBar \<Rightarrow> int \<Rightarrow> int \<Rightarrow> QScrollBar" where
  "sbSetRange sb lo hi =
     sbSetValue (sb\<lparr>sbMinimum := lo, sbMaximum := max lo hi\<rparr>) (sbValue sb)"

datatype ScrollBarLocation = SCROLLBAR_NONE | SCROLLBAR_LEFT | SCROLLBAR_RIGHT

text \<open>
  The members of \<^verbatim>\<open>TerminalDisplay\<close> that the translated functions read or write, under
  their source names without the leading underscore (\<open>imageBuf\<close> is \<^verbatim>\<open>_image\<close>, \<open>None\<close>
  being the null pointer).  \<open>contentsRect\<close> and \<open>scrollBarExtent\<close> are what Qt reports for
  the widget.  \<open>cursorMoves\<close> and \<open>mouseSignals\<close> record the positions the mouse cursor is set
  to and the arguments of the emitted \<^verbatim>\<open>mouseSignal\<close>s; \<open>scrollCalls\<close> and \<open>updateCalls\<close> record the calls of \<^verbatim>\<open>QWidget::scroll\<close>
  (dx, dy, rectangle) and of \<^verbatim>\<open>QWidget::update\<close> (the dirty region, a list of rectangles
  standing for their union).
\<close>

record TerminalDisplay =
  screenWindow :: ScreenWindow
  imageBuf :: "Character list option"
  imageSize :: int
  lines :: int
  columns :: int
  usedLines :: int
  usedColumns :: int
  fontHeight :: int
  fontWidth :: int
  bX :: int
  bY :: int
  rimX :: int
  rimY :: int
  contentWidth :: int
  contentHeight :: int
  contentsRect :: QRect
  scrollBar :: QScrollBar
  scrollBarExtent :: int
  scrollbarLocation :: ScrollBarLocation
  isFixedSize :: bool
  resizing :: bool
  hasBlinker :: bool
  blinking :: bool
  blinkTimerActive :: bool
  lineProperties :: "8 word list"
  imPreeditLength :: int
  imStart :: int
  imStartLine :: int
  imEnd :: int
  imSelStart :: int
  imSelEnd :: int
  isIMEdit :: bool
  isIMSel :: bool
  actSel :: int
  wordSelectionMode :: bool
  lineSelectionMode :: bool
  columnSelectionMode :: bool
  iPntSel :: QPoint
  pntSel :: QPoint
  tripleSelBegin :: QPoint
  wordCharacters :: "16 word list"
  mouseMarks :: bool
  cutToBeginningOfLine :: bool
  possibleTripleClick :: bool
  cursorMoves :: "QPoint list"
  mouseSignals :: "(int \<times> int \<times> int \<times> int) list"
  scrollCalls :: "(int \<times> int \<times> QRect) list"
  updateCalls :: "QRect list list"

text \<open>The blank cell that \<^verbatim>\<open>clearImage\<close> writes.\<close>

definition blankCell :: Character where
  "blankCell = \<lparr>character = 0x20, rendition = DEFAULT_RENDITION,
     foregroundColor = CharacterColor COLOR_SPACE_DEFAULT DEFAULT_FORE_COLOR,
     backgroundColor = CharacterColor COLOR_SPACE_DEFAULT DEFAULT_BACK_COLOR\<rparr>"

text \<open>
  Reading cell \<open>i\<close> of a buffer.  A read outside the allocated cells has no defined result
  in C++; the model returns the blank cell there, and the theorems below assume the
  allocation (\<open>imageSize + 1\<close> cells) under which the reads they depend on are inside.
\<close>

definition cellAt :: "Character list \<Rightarrow> int \<Rightarrow> Character" where
  "cellAt buf i = (if 0 \<le> i \<and> i < int (length buf) then buf ! nat i else blankCell)"

text \<open>The macro \<^verbatim>\<open>loc(X,Y)\<close>: the index of column \<open>X\<close> of line \<open>Y\<close>.\<close>

definition loc :: "TerminalDisplay \<Rightarrow> int \<Rightarrow> int \<Rightarrow> int" where
  "loc st X Y = Y * columns st + X"

text \<open>
  \<^verbatim>\<open>memcpy\<close> and \<^verbatim>\<open>memmove\<close> in units of cells: cells \<open>dst .. dst + cnt - 1\<close> of the
  destination receive cells \<open>src .. src + cnt - 1\<close> of the source as they were before the
  call.
\<close>

definition memcpy :: "Character list \<Rightarrow> int \<Rightarrow> Character list \<Rightarrow> int \<Rightarrow> int \<Rightarrow> Character list" where
  "memcpy dbuf dst sbuf src cnt =
     map (\<lambda>k. if dst \<le> int k \<and> int k < dst + cnt then cellAt sbuf (int k - dst + src)
               else dbuf ! k) [0..<length dbuf]"

definition memmove :: "Character list \<Rightarrow> int \<Rightarrow> int \<Rightarrow> int \<Rightarrow> Character list" where
  "memmove buf dst src cnt = memcpy buf dst buf src cnt"

text \<open>C++ integer division truncates towards zero.\<close>

definition c_div :: "int \<Rightarrow> int \<Rightarrow> int" where
  "c_div a b = (if (a < 0) = (b < 0) then \<bar>a\<bar> div \<bar>b\<bar> else - (\<bar>a\<bar> div \<bar>b\<bar>))"

section \<open>Scrolling the displayed image\<close>

text \<open>
  \<^verbatim>\<open>TerminalDisplay::scrollImage\<close>.  The block of \<open>usedLines - |n|\<close> lines is moved inside
  the image with the stride \<open>usedColumns\<close>, and the widget is asked to scroll the matching
  rectangle by \<open>fontHeight * (-n)\<close> pixels.
\<close>

definition scrollImage :: "TerminalDisplay \<Rightarrow> int \<Rightarrow> error + TerminalDisplay" where
  "scrollImage st n =
    (if n = 0 \<or> imageBuf st = None \<or> \<bar>n\<bar> \<ge> usedLines st then Inr st
     else case imageBuf st of
       None \<Rightarrow> Inr st
     | Some img \<Rightarrow>
        if n > 0 then
          (if \<not> (n * usedColumns st < imageSize st) then Inl AssertionFailed
           else Inr (st\<lparr>
             imageBuf := Some (memmove img 0 (n * usedColumns st)
                                 ((usedLines st - n) * usedColumns st)),
             scrollCalls := scrollCalls st @
               [(0, fontHeight st * (- n),
                 \<lparr>rectX = bX st, rectY = bY st,
                  rectW = usedColumns st * fontWidth st,
                  rectH = (usedLines st - n) * fontHeight st\<rparr>)]\<rparr>))
        else
          Inr (st\<lparr>
            imageBuf := Some (memmove img (\<bar>n\<bar> * usedColumns st) 0
                                ((usedLines st - \<bar>n\<bar>) * usedColumns st)),
            scrollCalls := scrollCalls st @
              [(0, fontHeight st * (- n),
                \<lparr>rectX = bX st, rectY = bY st + \<bar>n\<bar> * fontHeight st,
                 rectW = usedColumns st * fontWidth st,
                 rectH = (usedLines st - \<bar>n\<bar>) * fontHeight st\<rparr>)]\<rparr>))"


section \<open>Converting a widget point to a cell\<close>


section \<open>Updating the displayed image\<close>

text \<open>
  \<^verbatim>\<open>TerminalDisplay::setScroll\<close>: the scroll bar takes the range \<open>0 .. slines\<close> and the
  value \<open>cursor\<close> unless it has them already.
\<close>

definition setScroll :: "TerminalDisplay \<Rightarrow> int \<Rightarrow> int \<Rightarrow> TerminalDisplay" where
  "setScroll st cursor slines =
     (if sbMinimum (scrollBar st) = 0 \<and> sbMaximum (scrollBar st) = slines
         \<and> sbValue (scrollBar st) = cursor
      then st
      else st\<lparr>scrollBar := sbSetValue (sbSetRange (scrollBar st) 0 slines) cursor\<rparr>)"

text \<open>
  \<^verbatim>\<open>clearImage\<close>, \<^verbatim>\<open>calcGeometry\<close>, \<^verbatim>\<open>makeImage\<close> and \<^verbatim>\<open>updateImageSize\<close>: the image
  is allocated with \<open>lines * columns + 1\<close> cells, cleared, and the overlapping top-left part
  of the old image is copied into it.  The signal that announces the new content size is
  not modelled.
\<close>

definition clearImage :: "TerminalDisplay \<Rightarrow> TerminalDisplay" where
  "clearImage st = st\<lparr>imageBuf :=
     map_option (\<lambda>img. map (\<lambda>k. if int k \<le> imageSize st then blankCell else img ! k)
                          [0..<length img]) (imageBuf st)\<rparr>"

definition calcGeometry :: "TerminalDisplay \<Rightarrow> error + TerminalDisplay" where
  "calcGeometry st =
    (let st1 = (case scrollbarLocation st of
            SCROLLBAR_NONE \<Rightarrow>
              st\<lparr>bX := rimX st, contentWidth := rectW (contentsRect st) - 2 * rimX st\<rparr>
          | SCROLLBAR_LEFT \<Rightarrow>
              st\<lparr>bX := rimX st + scrollBarExtent st,
                 contentWidth := rectW (contentsRect st) - 2 * rimX st - scrollBarExtent st\<rparr>
          | SCROLLBAR_RIGHT \<Rightarrow>
              st\<lparr>bX := rimX st,
                 contentWidth := rectW (contentsRect st) - 2 * rimX st - scrollBarExtent st\<rparr>);
         st2 = st1\<lparr>bY := rimY st1,
                    contentHeight := rectH (contentsRect st1) - 2 * rimY st1 + 1\<rparr>
     in if \<not> isFixedSize st2 then
          (if fontWidth st2 = 0 then Inl DivisionByZero
           else
             let st3 = st2\<lparr>columns := max 1 (c_div (contentWidth st2) (fontWidth st2))\<rparr>;
                 st4 = st3\<lparr>usedColumns := min (usedColumns st3) (columns st3)\<rparr>
             in if fontHeight st4 = 0 then Inl DivisionByZero
                else
                  let st5 = st4\<lparr>lines := max 1 (c_div (contentHeight st4) (fontHeight st4))\<rparr>
                  in Inr (st5\<lparr>usedLines := min (usedLines st5) (lines st5)\<rparr>))
        else Inr st2)"

definition makeImage :: "TerminalDisplay \<Rightarrow> error + TerminalDisplay" where
  "makeImage st =
    (case calcGeometry st of
       Inl e \<Rightarrow> Inl e
     | Inr st1 \<Rightarrow>
        if \<not> (lines st1 > 0 \<and> columns st1 > 0) then Inl AssertionFailed
        else if \<not> (usedLines st1 \<le> lines st1 \<and> usedColumns st1 \<le> columns st1)
        then Inl AssertionFailed
        else
          let st2 = st1\<lparr>imageSize := lines st1 * columns st1\<rparr>;
              st3 = st2\<lparr>imageBuf := Some (replicate (nat (imageSize st2 + 1)) blankCell)\<rparr>
          in Inr (clearImage st3))"

definition updateImageSize :: "TerminalDisplay \<Rightarrow> error + TerminalDisplay" where
  "updateImageSize st =
    (let oldimg = imageBuf st; oldlin = lines st; oldcol = columns st
     in case makeImage st of
       Inl e \<Rightarrow> Inl e
     | Inr st1 \<Rightarrow>
        let lins = min oldlin (lines st1);
            cols = min oldcol (columns st1);
            st2 = (case oldimg of
                None \<Rightarrow> st1
              | Some old \<Rightarrow>
                 st1\<lparr>imageBuf := map_option
                   (fold (\<lambda>lin img. memcpy img (columns st1 * int lin) old (oldcol * int lin) cols)
                      [0..<nat lins])
                   (imageBuf st1)\<rparr>)
        in Inr (st2\<lparr>resizing := False\<rparr>))"

text \<open>
  The pieces of the line loop of \<^verbatim>\<open>TerminalDisplay::updateImage\<close>.  \<open>imDirty\<close> is the
  input-method part of the test that marks a column dirty; \<open>lineDirtyMask\<close> is the mask
  of \<open>columnsToUpdate + 2\<close> entries that the first inner loop fills, and \<open>maskAt\<close> reads
  it after the pointer has been advanced by one.
\<close>

definition isLineChar :: "16 word \<Rightarrow> bool" where
  "isLineChar c = ((c AND 0xFF80) = 0x2500)"

definition imDirty :: "TerminalDisplay \<Rightarrow> int \<Rightarrow> int \<Rightarrow> bool" where
  "imDirty st x y =
     (imPreeditLength st > 0 \<and>
      ((imStartLine st = y \<and> (imStart st < imEnd st \<and> x > imStart st \<and> x < imEnd st))
       \<or> (imSelStart st < imSelEnd st \<and> x > imSelStart st)))"

definition lineDirtyMask ::
  "TerminalDisplay \<Rightarrow> (int \<Rightarrow> Character) \<Rightarrow> (int \<Rightarrow> Character) \<Rightarrow> int \<Rightarrow> int \<Rightarrow> bool list" where
  "lineDirtyMask st displayedLine newLine columnsToUpdate y =
     fold (\<lambda>x dirtyMask.
             if imDirty st (int x) y \<or> newLine (int x) \<noteq> displayedLine (int x)
             then dirtyMask[x := True, x + 1 := True, x + 2 := True]
             else dirtyMask)
       [0..<nat columnsToUpdate] (replicate (nat (columnsToUpdate + 2)) False)"

definition maskAt :: "bool list \<Rightarrow> int \<Rightarrow> bool" where
  "maskAt dirtyMask x = (0 \<le> x + 1 \<and> x + 1 < int (length dirtyMask) \<and> dirtyMask ! nat (x + 1))"

text \<open>
  The loop that measures a run starting at column \<open>x\<close>: \<open>runBreaks\<close> is the test that
  ends the run at a cell whose character is not 0, and \<open>runLength\<close> returns the final
  \<open>len\<close> and the number \<open>p\<close> of characters collected.
\<close>

definition runBreaks :: "(int \<Rightarrow> Character) \<Rightarrow> bool list \<Rightarrow> int \<Rightarrow> int \<Rightarrow> bool" where
  "runBreaks newLine dirtyMask x len =
    (let c = character (newLine x);
         lineDraw = isLineChar c;
         doubleWidth = (character (newLine (x + 1)) = 0);
         cr = rendition (newLine x);
         clipboard = backgroundColor (newLine x);
         cf = foregroundColor (newLine x);
         ch = newLine (x + len)
     in foregroundColor ch \<noteq> cf \<or> backgroundColor ch \<noteq> clipboard
        \<or> rendition ch \<noteq> cr \<or> \<not> maskAt dirtyMask (x + len)
        \<or> isLineChar c \<noteq> lineDraw
        \<or> (character (newLine (x + len + 1)) = 0) \<noteq> doubleWidth)"

function runLength :: "(int \<Rightarrow> Character) \<Rightarrow> bool list \<Rightarrow> int \<Rightarrow> int \<Rightarrow> int \<Rightarrow> int \<Rightarrow> int \<times> int" where
  "runLength newLine dirtyMask x lln len p =
    (if len < lln then
       (if character (newLine (x + len)) = 0
        then runLength newLine dirtyMask x lln (len + 1) p
        else if runBreaks newLine dirtyMask x len then (len, p)
        else runLength newLine dirtyMask x lln (len + 1) (p + 1))
     else (len, p))"
  by pat_completeness auto
termination
  by (relation "measure (\<lambda>(newLine, dirtyMask, x, lln, len, p). nat (lln - len))") auto

declare runLength.simps [simp del]

lemma runLength_ge: "len \<le> fst (runLength newLine dirtyMask x lln len p)"
proof (induction newLine dirtyMask x lln len p rule: runLength.induct)
  case (1 newLine dirtyMask x lln len p)
  show ?case
    by (subst runLength.simps) (use 1 in \<open>auto simp: Let_def\<close>)
qed

text \<open>
  The scan of one line, run unless the display is resizing.  \<open>imFlags\<close> gives the values
  assigned to \<^verbatim>\<open>_isIMEdit\<close> and \<^verbatim>\<open>_isIMSel\<close> for a run; a run sets \<open>updateLine\<close> and
  moves \<open>x\<close> to its last column.
\<close>

definition imFlags :: "TerminalDisplay \<Rightarrow> int \<Rightarrow> int \<Rightarrow> int \<Rightarrow> bool \<times> bool" where
  "imFlags st y x p =
    (if imStartLine st = y then
       (imStart st < imEnd st \<and> x \<ge> imStart st - 1 \<and> x + p \<le> imEnd st,
        imSelStart st < imSelEnd st \<and> x \<ge> imStart st - 1 \<and> x + p \<le> imEnd st)
     else if imStartLine st < y then
       (imStart st < imEnd st, imSelStart st < imSelEnd st)
     else (False, False))"

record LineScan =
  scHasBlinker :: bool
  scIsIMEdit :: bool
  scIsIMSel :: bool
  scUpdateLine :: bool

definition noteBlink :: "(int \<Rightarrow> Character) \<Rightarrow> int \<Rightarrow> LineScan \<Rightarrow> LineScan" where
  "noteBlink newLine x sc =
     sc\<lparr>scHasBlinker := scHasBlinker sc \<or> (rendition (newLine x) AND RE_BLINK) \<noteq> 0\<rparr>"

definition lineRun ::
  "TerminalDisplay \<Rightarrow> (int \<Rightarrow> Character) \<Rightarrow> bool list \<Rightarrow> int \<Rightarrow> int \<Rightarrow> int \<Rightarrow> LineScan
     \<Rightarrow> int \<times> LineScan" where
  "lineRun st newLine dirtyMask columnsToUpdate y x sc =
    (let lln = columnsToUpdate - x;
         len = fst (runLength newLine dirtyMask x lln 1 1);
         p = snd (runLength newLine dirtyMask x lln 1 1)
     in (x + (len - 1),
         sc\<lparr>scIsIMEdit := fst (imFlags st y x p), scIsIMSel := snd (imFlags st y x p),
            scUpdateLine := True\<rparr>))"

lemma lineRun_advances: "x \<le> fst (lineRun st newLine dirtyMask columnsToUpdate y x sc)"
  using runLength_ge [of 1 newLine dirtyMask x "columnsToUpdate - x" 1]
  by (simp add: lineRun_def Let_def)

function scanLine ::
  "TerminalDisplay \<Rightarrow> (int \<Rightarrow> Character) \<Rightarrow> bool list \<Rightarrow> int \<Rightarrow> int \<Rightarrow> int \<Rightarrow> LineScan
     \<Rightarrow> LineScan" where
  "scanLine st newLine dirtyMask columnsToUpdate y x sc =
    (if x < columnsToUpdate then
       (if maskAt dirtyMask x then
          (if character (newLine x) = 0
           then scanLine st newLine dirtyMask columnsToUpdate y (x + 1) (noteBlink newLine x sc)
           else scanLine st newLine dirtyMask columnsToUpdate y
                  (fst (lineRun st newLine dirtyMask columnsToUpdate y x (noteBlink newLine x sc)) + 1)
                  (snd (lineRun st newLine dirtyMask columnsToUpdate y x (noteBlink newLine x sc))))
        else scanLine st newLine dirtyMask columnsToUpdate y (x + 1) (noteBlink newLine x sc))
     else sc)"
  by pat_completeness auto
termination
proof (relation "measure (\<lambda>(st, newLine, dirtyMask, columnsToUpdate, y, x, sc).
                    nat (columnsToUpdate - x))", goal_cases)
  case 1 show ?case by simp
next
  case (2 st newLine dirtyMask columnsToUpdate y x sc) then show ?case by simp
next
  case (3 st newLine dirtyMask columnsToUpdate y x sc)
  with lineRun_advances [of x st newLine dirtyMask columnsToUpdate y "noteBlink newLine x sc"]
  show ?case by simp
next
  case (4 st newLine dirtyMask columnsToUpdate y x sc) then show ?case by simp
qed

declare scanLine.simps [simp del]

text \<open>
  One pass of the loop over the lines: the mask, the scan, the double-height test, the
  dirty rectangle of the line, and the copy of the incoming line over the displayed one.
\<close>

record UpdateLoop =
  upImage :: "Character list"
  upHasBlinker :: bool
  upIsIMEdit :: bool
  upIsIMSel :: bool
  upDirtyRegion :: "QRect list"
  upDirtyLineCount :: int

definition updateLineStep ::
  "TerminalDisplay \<Rightarrow> Character list \<Rightarrow> int \<Rightarrow> int \<Rightarrow> int \<Rightarrow> UpdateLoop \<Rightarrow> UpdateLoop" where
  "updateLineStep st newimg wcolumns columnsToUpdate y up =
    (let displayedLine = (\<lambda>x. cellAt (upImage up) (y * columns st + x));
         newLine = (\<lambda>x. cellAt newimg (y * wcolumns + x));
         dirtyMask = lineDirtyMask st displayedLine newLine columnsToUpdate y;
         sc0 = \<lparr>scHasBlinker = upHasBlinker up, scIsIMEdit = upIsIMEdit up,
                scIsIMSel = upIsIMSel up, scUpdateLine = False\<rparr>;
         sc = (if \<not> resizing st then scanLine st newLine dirtyMask columnsToUpdate y 0 sc0
               else sc0);
         updateLine =
           (if int (length (lineProperties st)) > y
            then scUpdateLine sc \<or> (lineProperties st ! nat y AND LINE_DOUBLEHEIGHT) \<noteq> 0
            else scUpdateLine sc);
         dirtyRect = \<lparr>rectX = bX st + rectX (contentsRect st),
                      rectY = bY st + rectY (contentsRect st) + fontHeight st * y,
                      rectW = fontWidth st * columnsToUpdate,
                      rectH = fontHeight st\<rparr>
     in \<lparr>upImage = memcpy (upImage up) (y * columns st) newimg (y * wcolumns) columnsToUpdate,
         upHasBlinker = scHasBlinker sc,
         upIsIMEdit = scIsIMEdit sc,
         upIsIMSel = scIsIMSel sc,
         upDirtyRegion = (if updateLine then upDirtyRegion up @ [dirtyRect] else upDirtyRegion up),
         upDirtyLineCount = (if updateLine then upDirtyLineCount up + 1 else upDirtyLineCount up)\<rparr>)"

text \<open>
  The part of \<^verbatim>\<open>updateImage\<close> that follows the allocation check: the loop over the lines,
  the rectangles for a shrunken used area, the new used dimensions, the call of
  \<^verbatim>\<open>update\<close> with the dirty region and the blink timer.  The resize notification that
  ends the function only shows a label and is not modelled.
\<close>

definition diffLines ::
  "TerminalDisplay \<Rightarrow> Character list \<Rightarrow> Character list \<Rightarrow> int \<Rightarrow> int \<Rightarrow> TerminalDisplay" where
  "diffLines st img newimg wlines wcolumns =
    (let tLx = rectX (contentsRect st);
         tLy = rectY (contentsRect st);
         linesToUpdate = min (lines st) (max 0 wlines);
         columnsToUpdate = min (columns st) (max 0 wcolumns);
         up = fold (\<lambda>y. updateLineStep st newimg wcolumns columnsToUpdate (int y))
                [0..<nat linesToUpdate]
                \<lparr>upImage = img, upHasBlinker = False, upIsIMEdit = isIMEdit st,
                 upIsIMSel = isIMSel st, upDirtyRegion = [], upDirtyLineCount = 0\<rparr>;
         dirtyRegion1 =
           (if linesToUpdate < usedLines st
            then upDirtyRegion up @
              [\<lparr>rectX = bX st + tLx,
                rectY = bY st + tLy + fontHeight st * linesToUpdate,
                rectW = fontWidth st * columns st,
                rectH = fontHeight st * (usedLines st - linesToUpdate)\<rparr>]
            else upDirtyRegion up);
         dirtyRegion2 =
           (if columnsToUpdate < usedColumns st
            then dirtyRegion1 @
              [\<lparr>rectX = bX st + tLx + columnsToUpdate * fontWidth st,
                rectY = bY st + tLy,
                rectW = fontWidth st * (usedColumns st - columnsToUpdate),
                rectH = fontHeight st * lines st\<rparr>]
            else dirtyRegion1);
         timerActive1 = (if upHasBlinker up \<and> \<not> blinkTimerActive st then True
                         else blinkTimerActive st);
         stopTimer = (\<not> upHasBlinker up \<and> timerActive1)
     in st\<lparr>
          imageBuf := Some (upImage up),
          hasBlinker := upHasBlinker up,
          isIMEdit := upIsIMEdit up,
          isIMSel := upIsIMSel up,
          usedLines := linesToUpdate,
          usedColumns := columnsToUpdate,
          updateCalls := updateCalls st @ [dirtyRegion2],
          blinkTimerActive := (if stopTimer then False else timerActive1),
          blinking := (if stopTimer then False else blinking st)\<rparr>)"

text \<open>
  \<^verbatim>\<open>TerminalDisplay::updateImage\<close>: the pending scroll is applied, the scroll bar is
  set, the image is allocated if there is none, and the lines are compared and copied.
\<close>

definition updateImage :: "TerminalDisplay \<Rightarrow> error + TerminalDisplay" where
  "updateImage st =
    (case scrollImage st (scrollCount (screenWindow st)) of
       Inl e \<Rightarrow> Inl e
     | Inr st1 \<Rightarrow>
        let st2 = st1\<lparr>screenWindow := (screenWindow st1)\<lparr>scrollCount := 0\<rparr>\<rparr>;
            newimg = getImage (screenWindow st2);
            wlines = windowLines (screenWindow st2);
            wcolumns = windowColumns (screenWindow st2);
            st3 = setScroll st2 (currentLine (screenWindow st2)) (lineCount (screenWindow st2))
        in case (if imageBuf st3 = None then updateImageSize st3 else Inr st3) of
             Inl e \<Rightarrow> Inl e
           | Inr st4 \<Rightarrow>
              if \<not> usedLines st4 \<le> lines st4 then Inl AssertionFailed
              else if \<not> usedColumns st4 \<le> columns st4 then Inl AssertionFailed
              else case imageBuf st4 of
                None \<Rightarrow> Inl NullDereference
              | Some img \<Rightarrow> Inr (diffLines st4 img newimg wlines wcolumns))"

section \<open>Mouse selection\<close>

text \<open>
  The predicates and the case folding of Qt's \<^verbatim>\<open>QChar\<close> are not part of the translated
  file; the selection functions take them as a parameter.
\<close>

record QCharOps =
  isSpace :: "16 word \<Rightarrow> bool"
  isLetterOrNumber :: "16 word \<Rightarrow> bool"
  toCaseFolded :: "16 word \<Rightarrow> 16 word"

text \<open>
  \<^verbatim>\<open>TerminalDisplay::charClass\<close>: the character \<^verbatim>\<open>' '\<close> (32) for white space, \<^verbatim>\<open>'a'\<close>
  (97) for a letter, a digit or a member of the word characters (compared without regard
  to case), and 1 for everything else.
\<close>

definition charClass :: "QCharOps \<Rightarrow> TerminalDisplay \<Rightarrow> 16 word \<Rightarrow> int" where
  "charClass qc st ch =
     (if isSpace qc ch then 0x20
      else if isLetterOrNumber qc ch
              \<or> list_ex (\<lambda>w. toCaseFolded qc w = toCaseFolded qc ch) (wordCharacters st)
      then 0x61
      else 1)"

text \<open>
  Reading \<^verbatim>\<open>_lineProperties[i]\<close>; outside the vector the model returns 0, as \<open>cellAt\<close>
  returns the blank cell.  \<open>lineWrapped\<close> is the test \<^verbatim>\<open>_lineProperties[i] & LINE_WRAPPED\<close>.
\<close>

definition lineProperty :: "TerminalDisplay \<Rightarrow> int \<Rightarrow> 8 word" where
  "lineProperty st i =
     (if 0 \<le> i \<and> i < int (length (lineProperties st)) then lineProperties st ! nat i else 0)"

definition lineWrapped :: "TerminalDisplay \<Rightarrow> int \<Rightarrow> bool" where
  "lineWrapped st i = ((lineProperty st i AND LINE_WRAPPED) \<noteq> 0)"





text \<open>The loops that follow the wrapped flag upwards and downwards.\<close>

function lineUp :: "TerminalDisplay \<Rightarrow> int \<Rightarrow> int" where
  "lineUp st y = (if y > 0 \<and> lineWrapped st (y - 1) then lineUp st (y - 1) else y)"
  by pat_completeness auto
termination
  by (relation "measure (\<lambda>(st, y). nat y)") auto

declare lineUp.simps [simp del]

function lineDown :: "TerminalDisplay \<Rightarrow> int \<Rightarrow> int \<Rightarrow> int" where
  "lineDown st limit y =
     (if y < limit \<and> lineWrapped st y then lineDown st limit (y + 1) else y)"
  by pat_completeness auto
termination
  by (relation "measure (\<lambda>(st, limit, y). nat (limit - y))") auto

declare lineDown.simps [simp del]

text \<open>The mouse event, reduced to what the selection functions read.\<close>

datatype MouseButton = LeftButton | MidButton | RightButton


definition sendSelection :: "TerminalDisplay \<Rightarrow> SelectionCall \<Rightarrow> TerminalDisplay" where
  "sendSelection st c =
     st\<lparr>screenWindow := (screenWindow st)\<lparr>selectionCalls := selectionCalls (screenWindow st) @ [c]\<rparr>\<rparr>"




















section \<open>The dirty region in cell terms\<close>

text \<open>
  The pixel rectangle of the cell in column \<open>x\<close> of line \<open>y\<close>, as \<^verbatim>\<open>paintContents\<close>
  computes the area of a text fragment of length 1, and the rectangle \<open>updateImage\<close>
  adds to the dirty region for line \<open>y\<close>.  A region, a list of rectangles, covers a
  cell when one of its rectangles contains the cell's rectangle, and touches it when one
  of them overlaps it.
\<close>

definition cellArea :: "TerminalDisplay \<Rightarrow> int \<Rightarrow> int \<Rightarrow> QRect" where
  "cellArea st x y =
     \<lparr>rectX = bX st + rectX (contentsRect st) + fontWidth st * x,
      rectY = bY st + rectY (contentsRect st) + fontHeight st * y,
      rectW = fontWidth st, rectH = fontHeight st\<rparr>"

definition rectContains :: "QRect \<Rightarrow> QRect \<Rightarrow> bool" where
  "rectContains r c =
     (rectX r \<le> rectX c \<and> rectX c + rectW c \<le> rectX r + rectW r
      \<and> rectY r \<le> rectY c \<and> rectY c + rectH c \<le> rectY r + rectH r)"


definition regionCovers :: "QRect list \<Rightarrow> QRect \<Rightarrow> bool" where
  "regionCovers region c = list_ex (\<lambda>r. rectContains r c) region"


definition lineRect :: "TerminalDisplay \<Rightarrow> int \<Rightarrow> int \<Rightarrow> QRect" where
  "lineRect st columnsToUpdate y =
     \<lparr>rectX = bX st + rectX (contentsRect st),
      rectY = bY st + rectY (contentsRect st) + fontHeight st * y,
      rectW = fontWidth st * columnsToUpdate,
      rectH = fontHeight st\<rparr>"

text \<open>
  What decides whether \<open>updateImage\<close> repaints a line, written without the loops:
  a column differs when the composition test or the comparison of the cells says so, and
  a line is updated when, outside a resize, some cell with a non-zero character has a
  differing column at or next to it, or when the line is flagged double height.
  \<open>lineRegion\<close> collects the rectangles of the updated lines among the first \<open>k\<close>.
\<close>

definition columnDiffers ::
  "TerminalDisplay \<Rightarrow> (int \<Rightarrow> Character) \<Rightarrow> (int \<Rightarrow> Character) \<Rightarrow> int \<Rightarrow> int \<Rightarrow> bool" where
  "columnDiffers st displayedLine newLine y x =
     (imDirty st x y \<or> newLine x \<noteq> displayedLine x)"

definition lineUpdates ::
  "TerminalDisplay \<Rightarrow> (int \<Rightarrow> Character) \<Rightarrow> (int \<Rightarrow> Character) \<Rightarrow> int \<Rightarrow> int \<Rightarrow> bool" where
  "lineUpdates st displayedLine newLine ctu y =
     ((\<not> resizing st \<and>
       (\<exists>x'. 0 \<le> x' \<and> x' < ctu \<and> character (newLine x') \<noteq> 0 \<and>
          (\<exists>x. 0 \<le> x \<and> x < ctu \<and> x' - 1 \<le> x \<and> x \<le> x' + 1
               \<and> columnDiffers st displayedLine newLine y x)))
      \<or> (y < int (length (lineProperties st))
          \<and> (lineProperties st ! nat y AND LINE_DOUBLEHEIGHT) \<noteq> 0))"

definition lineRegion ::
  "TerminalDisplay \<Rightarrow> Character list \<Rightarrow> Character list \<Rightarrow> int \<Rightarrow> int \<Rightarrow> nat \<Rightarrow> QRect list" where
  "lineRegion st img newimg wc ctu k =
     concat (map (\<lambda>y. if lineUpdates st (\<lambda>x. cellAt img (int y * columns st + x))
                               (\<lambda>x. cellAt newimg (int y * wc + x)) ctu (int y)
                         then [lineRect st ctu (int y)] else []) [0..<k])"

text \<open>Whether the region of the last \<^verbatim>\<open>update\<close> call covers a cell.\<close>

definition lastRegionCovers :: "int \<Rightarrow> int \<Rightarrow> TerminalDisplay \<Rightarrow> bool" where
  "lastRegionCovers x y st = regionCovers (last (updateCalls st)) (cellArea st x y)"

section \<open>Selections in reading order\<close>

text \<open>
  \<open>pointLe a b\<close>: the point \<open>a\<close> is at or before \<open>b\<close> in (row, column) reading order.
  \<open>orderedCalls\<close> describes what one call of \<open>extendSelection\<close> may send: nothing, an
  end alone, or a start followed by an end with the start at or before the end in
  reading order.  \<open>callsOf\<close> reads the selection calls of a result.
\<close>

definition pointLe :: "QPoint \<Rightarrow> QPoint \<Rightarrow> bool" where
  "pointLe a b = (ptY a < ptY b \<or> (ptY a = ptY b \<and> ptX a \<le> ptX b))"



section \<open>Example states\<close>

text \<open>
  The state the constructor of \<^verbatim>\<open>TerminalDisplay\<close> sets up (members it leaves
  uninitialised are 0, false or empty here), and the state of a display whose image has
  been allocated for \<open>nl\<close> lines of \<open>nc\<close> columns, all of them used: \<open>nl * nc\<close>
  cells followed by the one reserved cell.
\<close>

definition initialDisplay :: TerminalDisplay where
  "initialDisplay = \<lparr>
     screenWindow = \<lparr>scrollCount = 0, getImage = [], windowLines = 0, windowColumns = 0,
                     currentLine = 0, lineCount = 0, selectionCalls = []\<rparr>,
     imageBuf = None, imageSize = 0,
     lines = 1, columns = 1, usedLines = 1, usedColumns = 1,
     fontHeight = 1, fontWidth = 1, bX = 1, bY = 1, rimX = 1, rimY = 1,
     contentWidth = 1, contentHeight = 1,
     contentsRect = \<lparr>rectX = 0, rectY = 0, rectW = 0, rectH = 0\<rparr>,
     scrollBar = \<lparr>sbValue = 0, sbMinimum = 0, sbMaximum = 0\<rparr>,
     scrollBarExtent = 0, scrollbarLocation = SCROLLBAR_NONE,
     isFixedSize = False, resizing = False, hasBlinker = False, blinking = False,
     blinkTimerActive = False, lineProperties = [],
     imPreeditLength = 0, imStart = 0, imStartLine = 0, imEnd = 0,
     imSelStart = 0, imSelEnd = 0, isIMEdit = False, isIMSel = False,
     actSel = 0, wordSelectionMode = False, lineSelectionMode = False,
     columnSelectionMode = False,
     iPntSel = \<lparr>ptX = 0, ptY = 0\<rparr>, pntSel = \<lparr>ptX = 0, ptY = 0\<rparr>,
     tripleSelBegin = \<lparr>ptX = 0, ptY = 0\<rparr>,
     wordCharacters = [0x3A, 0x40, 0x2D, 0x2E, 0x2F, 0x5F, 0x7E],
     mouseMarks = True, cutToBeginningOfLine = False, possibleTripleClick = False,
     cursorMoves = [], mouseSignals = [], scrollCalls = [], updateCalls = []\<rparr>"

definition cellOf :: "16 word \<Rightarrow> Character" where
  "cellOf c = blankCell\<lparr>character := c\<rparr>"

definition gridDisplay :: "int \<Rightarrow> int \<Rightarrow> Character list \<Rightarrow> TerminalDisplay" where
  "gridDisplay nl nc cells = initialDisplay\<lparr>
     imageBuf := Some (cells @ [blankCell]), imageSize := nl * nc,
     lines := nl, columns := nc, usedLines := nl, usedColumns := nc\<rparr>"


definition abGrid :: TerminalDisplay where
  "abGrid = gridDisplay 2 1 [cellOf 0x61, cellOf 0x62]"

text \<open>The two-line display with an incoming image of the same size that differs in the
  first cell.\<close>

definition abIncoming :: TerminalDisplay where
  "abIncoming = abGrid\<lparr>screenWindow := (screenWindow abGrid)\<lparr>
      getImage := [cellOf 0x78, cellOf 0x62, blankCell], windowLines := 2, windowColumns := 1\<rparr>\<rparr>"

text \<open>
  The two-line display while a resize is in progress, the two-line display with an
  incoming image whose first cell has the character code 0, and the display of 24 lines
  of 80 blank cells whose incoming image has an X in column 10 of line 5.
\<close>

definition abResizing :: TerminalDisplay where
  "abResizing = abIncoming\<lparr>resizing := True\<rparr>"

definition zeroIncoming :: TerminalDisplay where
  "zeroIncoming = abGrid\<lparr>screenWindow := (screenWindow abGrid)\<lparr>
      getImage := [cellOf 0, cellOf 0x62, blankCell], windowLines := 2, windowColumns := 1\<rparr>\<rparr>"










section \<open>Properties of the scroll shift\<close>

lemma length_memcpy: "length (memcpy d dst s src cnt) = length d"
  by (simp add: memcpy_def)

lemma cellAt_memcpy:
  "0 \<le> i \<Longrightarrow> i < int (length d) \<Longrightarrow>
   cellAt (memcpy d dst s src cnt) i =
     (if dst \<le> i \<and> i < dst + cnt then cellAt s (i - dst + src) else cellAt d i)"
  by (simp add: memcpy_def cellAt_def)


lemma length_memmove: "length (memmove b dst src cnt) = length b"
  by (simp add: memmove_def length_memcpy)

lemma row_index_bound:
  fixes x y c r :: int
  assumes "0 \<le> x" "x < c" "0 \<le> y" "y < r"
  shows "0 \<le> y * c + x \<and> y * c + x < r * c"
proof -
  have "y + 1 \<le> r" using assms by simp
  then have "(y + 1) * c \<le> r * c" using assms by (intro mult_right_mono) auto
  moreover have "y * c + x < (y + 1) * c" using assms by (simp add: algebra_simps)
  moreover have "0 \<le> y * c" using assms by simp
  ultimately show ?thesis using assms by linarith
qed

lemma mult_bounds:
  fixes n ul uc l c :: int
  assumes "0 \<le> n" "n < ul" "ul \<le> l" "0 \<le> uc" "uc \<le> c" "0 < c"
  shows "n * uc < l * c" "ul * uc \<le> l * c"
proof -
  have "n * uc \<le> (l - 1) * uc" using assms by (intro mult_right_mono) auto
  also have "\<dots> \<le> (l - 1) * c" using assms by (intro mult_left_mono) auto
  also have "\<dots> < l * c" using assms by (simp add: algebra_simps)
  finally show "n * uc < l * c" .
  have "ul * uc \<le> l * uc" using assms by (intro mult_right_mono) auto
  also have "\<dots> \<le> l * c" using assms by (intro mult_left_mono) auto
  finally show "ul * uc \<le> l * c" .
qed










section \<open>Properties of the point conversion\<close>




section \<open>Properties of the image update\<close>

lemma upImage_step [simp]:
  "upImage (updateLineStep st newimg w ctu y up)
     = memcpy (upImage up) (y * columns st) newimg (y * w) ctu"
  by (simp add: updateLineStep_def Let_def)

lemma fold_step_length:
  "length (upImage (fold (\<lambda>y. updateLineStep st newimg w ctu (int y)) [0..<k] up))
     = length (upImage up)"
  by (induction k) (simp_all add: length_memcpy)

lemma fold_step_untouched:
  assumes "0 \<le> ctu" "ctu \<le> columns st" "int k * columns st \<le> i"
  shows "cellAt (upImage (fold (\<lambda>y. updateLineStep st newimg w ctu (int y)) [0..<k] up)) i
           = cellAt (upImage up) i"
  using assms
proof (induction k)
  case 0
  then show ?case by simp
next
  case (Suc k)
  have c0: "0 \<le> columns st" using Suc.prems by simp
  have ki: "int k * columns st + columns st \<le> i" using Suc.prems by (simp add: algebra_simps)
  then have "int k * columns st \<le> i" using c0 by simp
  then have ih: "cellAt (upImage (fold (\<lambda>y. updateLineStep st newimg w ctu (int y)) [0..<k] up)) i
           = cellAt (upImage up) i" using Suc by simp
  have nin: "\<not> i < int k * columns st + ctu"
    using ki Suc.prems by simp
  show ?case
  proof (cases "0 \<le> i \<and> i < int (length (upImage up))")
    case True
    then show ?thesis using ih nin by (simp add: cellAt_memcpy fold_step_length)
  next
    case False
    then show ?thesis by (auto simp: cellAt_def length_memcpy fold_step_length)
  qed
qed

lemma fold_step_copied:
  assumes "0 \<le> ctu" "ctu \<le> columns st"
    and "int k * columns st \<le> int (length (upImage up))"
    and "y < k" "0 \<le> x" "x < ctu"
  shows "cellAt (upImage (fold (\<lambda>y. updateLineStep st newimg w ctu (int y)) [0..<k] up))
            (int y * columns st + x)
           = cellAt newimg (int y * w + x)"
  using assms
proof (induction k)
  case 0
  then show ?case by simp
next
  case (Suc k)
  let ?C = "columns st"
  let ?prev = "upImage (fold (\<lambda>y. updateLineStep st newimg w ctu (int y)) [0..<k] up)"
  have c0: "0 \<le> ?C" using Suc.prems by simp
  have len: "int k * ?C + ?C \<le> int (length (upImage up))"
    using Suc.prems by (simp add: algebra_simps)
  have b: "0 \<le> int y * ?C + x \<and> int y * ?C + x < int (Suc k) * ?C"
    using row_index_bound [of x ?C "int y" "int (Suc k)"] Suc.prems by simp
  then have inr: "0 \<le> int y * ?C + x" "int y * ?C + x < int (length ?prev)"
    using len by (simp_all add: fold_step_length algebra_simps)
  show ?case
  proof (cases "y = k")
    case True
    then show ?thesis using inr Suc.prems by (simp add: cellAt_memcpy add.commute)
  next
    case False
    then have yk: "y < k" using Suc.prems by simp
    have "int y * ?C + x < int k * ?C"
      using row_index_bound [of x ?C "int y" "int k"] yk Suc.prems by simp
    then have nin: "\<not> int k * ?C \<le> int y * ?C + x"
      by simp
    have ih: "cellAt ?prev (int y * ?C + x) = cellAt newimg (int y * w + x)"
      using Suc.IH [OF Suc.prems(1,2) _ yk Suc.prems(5,6)] len c0 by simp
    show ?thesis using inr nin ih by (simp add: cellAt_memcpy)
  qed
qed

lemma scrollImage_shape:
  assumes "imageBuf st = Some img" "imageSize st = lines st * columns st"
    "usedLines st \<le> lines st" "0 \<le> usedColumns st" "usedColumns st \<le> columns st"
    "0 < columns st"
  shows "\<exists>img1 sc. scrollImage st n = Inr (st\<lparr>imageBuf := Some img1, scrollCalls := sc\<rparr>)
           \<and> length img1 = length img"
proof (cases "n = 0 \<or> \<bar>n\<bar> \<ge> usedLines st")
  case True
  then have "scrollImage st n = Inr st" by (auto simp: scrollImage_def)
  moreover have "st = st\<lparr>imageBuf := Some img, scrollCalls := scrollCalls st\<rparr>"
    using assms(1) by simp
  ultimately show ?thesis by metis
next
  case False
  then have "\<bar>n\<bar> * usedColumns st < imageSize st"
    using mult_bounds(1) [of "\<bar>n\<bar>" "usedLines st" "lines st" "usedColumns st" "columns st"] assms
    by simp
  then show ?thesis using False assms(1)
    by (cases "n > 0") (auto simp: scrollImage_def length_memmove)
qed

lemma imageBuf_diffLines:
  "imageBuf (diffLines st img newimg wl wc) =
     Some (upImage (fold (\<lambda>y. updateLineStep st newimg wc (min (columns st) (max 0 wc)) (int y))
                      [0..<nat (min (lines st) (max 0 wl))]
                      \<lparr>upImage = img, upHasBlinker = False, upIsIMEdit = isIMEdit st,
                       upIsIMSel = isIMSel st, upDirtyRegion = [], upDirtyLineCount = 0\<rparr>))"
  by (simp add: diffLines_def Let_def)

lemma columns_diffLines [simp]: "columns (diffLines st img newimg wl wc) = columns st"
  and lines_diffLines [simp]: "lines (diffLines st img newimg wl wc) = lines st"
  by (simp_all add: diffLines_def Let_def)

lemma diffLines_copies:
  assumes "0 < lines st" "0 < columns st" "lines st * columns st \<le> int (length img)"
    and "0 \<le> y" "y < min (lines st) (max 0 wl)" "0 \<le> x" "x < min (columns st) (max 0 wc)"
  shows "\<exists>img'. imageBuf (diffLines st img newimg wl wc) = Some img'
           \<and> length img' = length img
           \<and> cellAt img' (loc st x y) = cellAt newimg (y * wc + x)"
proof -
  define ltu where "ltu = min (lines st) (max 0 wl)"
  define ctu where "ctu = min (columns st) (max 0 wc)"
  define up0 where "up0 = \<lparr>upImage = img, upHasBlinker = False, upIsIMEdit = isIMEdit st,
                       upIsIMSel = isIMSel st, upDirtyRegion = [], upDirtyLineCount = 0\<rparr>"
  have r: "ltu \<le> lines st" "0 \<le> ltu" "y < ltu" "0 \<le> ctu" "ctu \<le> columns st" "x < ctu"
    using assms by (simp_all add: ltu_def ctu_def)
  have "ltu * columns st \<le> lines st * columns st"
    using r(1) assms(2) by (intro mult_right_mono) simp_all
  with assms(3) have "ltu * columns st \<le> int (length img)" by linarith
  then have len: "int (nat ltu) * columns st \<le> int (length (upImage up0))"
    using r(2) by (simp add: up0_def)
  have yk: "nat y < nat ltu" using r assms(4) by simp
  have "cellAt (upImage (fold (\<lambda>y. updateLineStep st newimg wc ctu (int y)) [0..<nat ltu] up0))
            (int (nat y) * columns st + x) = cellAt newimg (int (nat y) * wc + x)"
    by (rule fold_step_copied [OF r(4) r(5) len yk assms(6) r(6)])
  moreover have "imageBuf (diffLines st img newimg wl wc)
      = Some (upImage (fold (\<lambda>y. updateLineStep st newimg wc ctu (int y)) [0..<nat ltu] up0))"
    unfolding ltu_def ctu_def up0_def by (rule imageBuf_diffLines)
  moreover have "length (upImage (fold (\<lambda>y. updateLineStep st newimg wc ctu (int y)) [0..<nat ltu] up0))
      = length img"
    by (simp add: fold_step_length up0_def)
  ultimately show ?thesis using assms(4) by (simp add: loc_def)
qed

text \<open>
  Claim C1.  For a display whose image is allocated (\<open>lines * columns + 1\<close> cells, the
  used area inside the allocated one) and any incoming image, \<open>updateImage\<close> succeeds, and
  afterwards every cell of the displayed image in the first \<open>linesToUpdate\<close> lines and
  \<open>columnsToUpdate\<close> columns equals the corresponding cell of the incoming image.  With
  equal dimensions these are all the lines and columns.
\<close>

theorem updateImage_copies_incoming:
  assumes img: "imageBuf st = Some imgA"
    and alloc: "imageSize st = lines st * columns st" "int (length imgA) = imageSize st + 1"
    and dims: "0 < lines st" "0 < columns st" "usedLines st \<le> lines st"
              "0 \<le> usedColumns st" "usedColumns st \<le> columns st"
  shows "\<exists>st' img'. updateImage st = Inr st' \<and> imageBuf st' = Some img'
           \<and> lines st' = lines st \<and> columns st' = columns st
           \<and> (\<forall>y x. 0 \<le> y \<and> y < min (lines st) (max 0 (windowLines (screenWindow st)))
                  \<and> 0 \<le> x \<and> x < min (columns st) (max 0 (windowColumns (screenWindow st)))
                \<longrightarrow> cellAt img' (loc st' x y)
                     = cellAt (getImage (screenWindow st))
                         (y * windowColumns (screenWindow st) + x))"
proof -
  from scrollImage_shape [OF img alloc(1) dims(3,4,5,2), of "scrollCount (screenWindow st)"]
  obtain img1 sc where
    s1: "scrollImage st (scrollCount (screenWindow st))
           = Inr (st\<lparr>imageBuf := Some img1, scrollCalls := sc\<rparr>)"
    and l1: "length img1 = length imgA" by blast
  let ?st4 = "setScroll (st\<lparr>imageBuf := Some img1, scrollCalls := sc,
                 screenWindow := (screenWindow st)\<lparr>scrollCount := 0\<rparr>\<rparr>)
               (currentLine (screenWindow st)) (lineCount (screenWindow st))"
  let ?B = "getImage (screenWindow st)"
  let ?wl = "windowLines (screenWindow st)" and ?wc = "windowColumns (screenWindow st)"
  have f4: "imageBuf ?st4 = Some img1" "lines ?st4 = lines st" "columns ?st4 = columns st"
    "usedLines ?st4 = usedLines st" "usedColumns ?st4 = usedColumns st"
    by (simp_all add: setScroll_def)
  have run: "updateImage st = Inr (diffLines ?st4 img1 ?B ?wl ?wc)"
    using s1 f4 dims by (simp add: updateImage_def Let_def)
  have cells: "\<exists>img'. imageBuf (diffLines ?st4 img1 ?B ?wl ?wc) = Some img'
           \<and> length img' = length img1
           \<and> cellAt img' (loc ?st4 x y) = cellAt ?B (y * ?wc + x)"
    if "0 \<le> y \<and> y < min (lines st) (max 0 ?wl) \<and> 0 \<le> x \<and> x < min (columns st) (max 0 ?wc)"
    for x y
    using that dims alloc l1 f4 by (intro diffLines_copies) simp_all
  obtain img' where i': "imageBuf (diffLines ?st4 img1 ?B ?wl ?wc) = Some img'"
    by (simp add: imageBuf_diffLines)
  have "cellAt img' (loc (diffLines ?st4 img1 ?B ?wl ?wc) x y) = cellAt ?B (y * ?wc + x)"
    if "0 \<le> y \<and> y < min (lines st) (max 0 ?wl) \<and> 0 \<le> x \<and> x < min (columns st) (max 0 ?wc)"
    for x y
    using cells [OF that] i' by (simp add: loc_def)
  then show ?thesis using run i' f4 by simp
qed

theorem updateImage_copies_incoming_witness:
  "imageBuf abIncoming = Some [cellOf 0x61, cellOf 0x62, blankCell]
   \<and> lines abIncoming = 2 \<and> columns abIncoming = 1
   \<and> (\<exists>st' img'. updateImage abIncoming = Inr st' \<and> imageBuf st' = Some img'
         \<and> cellAt img' (loc st' 0 0) = cellOf 0x78 \<and> cellAt img' (loc st' 0 1) = cellOf 0x62)"
proof -
  have h: "imageBuf abIncoming = Some [cellOf 0x61, cellOf 0x62, blankCell]"
    "imageSize abIncoming = lines abIncoming * columns abIncoming"
    "int (length [cellOf 0x61, cellOf 0x62, blankCell]) = imageSize abIncoming + 1"
    "0 < lines abIncoming" "0 < columns abIncoming" "usedLines abIncoming \<le> lines abIncoming"
    "0 \<le> usedColumns abIncoming" "usedColumns abIncoming \<le> columns abIncoming"
    by (simp_all add: abIncoming_def abGrid_def gridDisplay_def initialDisplay_def)
  have v: "lines abIncoming = 2" "columns abIncoming = 1"
    "windowLines (screenWindow abIncoming) = 2" "windowColumns (screenWindow abIncoming) = 1"
    "getImage (screenWindow abIncoming) = [cellOf 0x78, cellOf 0x62, blankCell]"
    by (simp_all add: abIncoming_def abGrid_def gridDisplay_def initialDisplay_def)
  from updateImage_copies_incoming [OF h] obtain st' img' where
    r: "updateImage abIncoming = Inr st'" "imageBuf st' = Some img'"
    and c: "\<forall>y x. 0 \<le> y \<and> y < min (lines abIncoming) (max 0 (windowLines (screenWindow abIncoming)))
                  \<and> 0 \<le> x \<and> x < min (columns abIncoming) (max 0 (windowColumns (screenWindow abIncoming)))
                \<longrightarrow> cellAt img' (loc st' x y)
                     = cellAt (getImage (screenWindow abIncoming))
                         (y * windowColumns (screenWindow abIncoming) + x)"
    by blast
  have "cellAt img' (loc st' 0 0) = cellOf 0x78"
    using c [rule_format, of 0 0] by (simp add: v cellAt_def)
  moreover have "cellAt img' (loc st' 0 1) = cellOf 0x62"
    using c [rule_format, of 1 0] by (simp add: v cellAt_def)
  ultimately show ?thesis using h(1) v(1,2) r by blast
qed

section \<open>Properties of the dirty region\<close>

lemma mask_fold_length:
  "length (fold (\<lambda>x dirtyMask. if P x then dirtyMask[x := True, x + 1 := True, x + 2 := True]
                                 else dirtyMask) [0..<n] m) = length m"
  by (induction n) simp_all

lemma nth_mark3:
  "j < length m \<Longrightarrow>
   (m[n := True, n + 1 := True, n + 2 := True]) ! j = (m ! j \<or> j = n \<or> j = n + 1 \<or> j = n + 2)"
  by (cases "j = n"; cases "j = n + 1"; cases "j = n + 2") simp_all

lemma mask_fold_nth:
  assumes "j < length m"
  shows "fold (\<lambda>x dirtyMask. if P x then dirtyMask[x := True, x + 1 := True, x + 2 := True]
                                 else dirtyMask) [0..<n] m ! j
         = (m ! j \<or> (\<exists>x<n. P x \<and> (j = x \<or> j = x + 1 \<or> j = x + 2)))"
  using assms
proof (induction n)
  case 0
  then show ?case by simp
next
  case (Suc n)
  let ?prev = "fold (\<lambda>x dirtyMask. if P x then dirtyMask[x := True, x + 1 := True, x + 2 := True]
                                 else dirtyMask) [0..<n] m"
  have l: "j < length ?prev" using Suc.prems by (simp add: mask_fold_length)
  have ih: "?prev ! j = (m ! j \<or> (\<exists>x<n. P x \<and> (j = x \<or> j = x + 1 \<or> j = x + 2)))"
    using Suc by simp
  show ?case
  proof (cases "P n")
    case True
    have "(?prev[n := True, n + 1 := True, n + 2 := True]) ! j
            = (?prev ! j \<or> j = n \<or> j = n + 1 \<or> j = n + 2)"
      using l by (rule nth_mark3)
    then show ?thesis using True ih by (auto simp: less_Suc_eq)
  next
    case False
    then show ?thesis using ih by (auto simp: less_Suc_eq)
  qed
qed

lemma maskAt_lineDirtyMask:
  assumes "- 1 \<le> x" "x \<le> ctu"
  shows "maskAt (lineDirtyMask st displayedLine newLine ctu y) x
         = (\<exists>x'. 0 \<le> x' \<and> x' < ctu \<and> x - 1 \<le> x' \<and> x' \<le> x + 1
                 \<and> columnDiffers st displayedLine newLine y x')"
proof -
  let ?P = "\<lambda>k. imDirty st (int k) y \<or> newLine (int k) \<noteq> displayedLine (int k)"
  let ?m = "replicate (nat (ctu + 2)) False"
  have j: "nat (x + 1) < length ?m" using assms by simp
  have "maskAt (lineDirtyMask st displayedLine newLine ctu y) x
        = (\<exists>k<nat ctu. ?P k \<and> (nat (x + 1) = k \<or> nat (x + 1) = k + 1 \<or> nat (x + 1) = k + 2))"
    using assms mask_fold_nth [OF j, of ?P "nat ctu"]
    by (simp add: maskAt_def lineDirtyMask_def mask_fold_length)
  also have "\<dots> = (\<exists>x'. 0 \<le> x' \<and> x' < ctu \<and> x - 1 \<le> x' \<and> x' \<le> x + 1
                 \<and> columnDiffers st displayedLine newLine y x')"
  proof
    assume "\<exists>k<nat ctu. ?P k \<and> (nat (x + 1) = k \<or> nat (x + 1) = k + 1 \<or> nat (x + 1) = k + 2)"
    then obtain k where k: "k < nat ctu" "?P k"
      "nat (x + 1) = k \<or> nat (x + 1) = k + 1 \<or> nat (x + 1) = k + 2" by blast
    have "0 \<le> int k \<and> int k < ctu \<and> x - 1 \<le> int k \<and> int k \<le> x + 1"
      using k assms by linarith
    then show "\<exists>x'. 0 \<le> x' \<and> x' < ctu \<and> x - 1 \<le> x' \<and> x' \<le> x + 1
                 \<and> columnDiffers st displayedLine newLine y x'"
      using k(2) unfolding columnDiffers_def by blast
  next
    assume "\<exists>x'. 0 \<le> x' \<and> x' < ctu \<and> x - 1 \<le> x' \<and> x' \<le> x + 1
                 \<and> columnDiffers st displayedLine newLine y x'"
    then obtain x' where x': "0 \<le> x'" "x' < ctu" "x - 1 \<le> x'" "x' \<le> x + 1"
      "columnDiffers st displayedLine newLine y x'" by blast
    have "nat x' < nat ctu" using x' by simp
    moreover have "?P (nat x')" using x' by (simp add: columnDiffers_def)
    moreover have "nat (x + 1) = nat x' \<or> nat (x + 1) = nat x' + 1 \<or> nat (x + 1) = nat x' + 2"
      using x' assms by linarith
    ultimately show "\<exists>k<nat ctu. ?P k \<and> (nat (x + 1) = k \<or> nat (x + 1) = k + 1 \<or> nat (x + 1) = k + 2)"
      by blast
  qed
  finally show ?thesis .
qed

lemma scUpdateLine_noteBlink [simp]: "scUpdateLine (noteBlink newLine x sc) = scUpdateLine sc"
  by (simp add: noteBlink_def)

lemma scUpdateLine_lineRun [simp]:
  "scUpdateLine (snd (lineRun st newLine dirtyMask ctu y x sc)) = True"
  by (simp add: lineRun_def Let_def)

lemma scanLine_updateLine:
  "scUpdateLine (scanLine st newLine dirtyMask ctu y x sc)
     = (scUpdateLine sc \<or> (\<exists>x'. x \<le> x' \<and> x' < ctu \<and> maskAt dirtyMask x'
                                  \<and> character (newLine x') \<noteq> 0))"
proof (induction st newLine dirtyMask ctu y x sc rule: scanLine.induct)
  case (1 st newLine dirtyMask ctu y x sc)
  show ?case
  proof (cases "x < ctu")
    case False
    then show ?thesis by (subst scanLine.simps) auto
  next
    case True
    note xl = True
    show ?thesis
    proof (cases "maskAt dirtyMask x")
      case False
      have split: "(\<exists>x'. x \<le> x' \<and> x' < ctu \<and> maskAt dirtyMask x' \<and> character (newLine x') \<noteq> 0)
        = (\<exists>x'. x + 1 \<le> x' \<and> x' < ctu \<and> maskAt dirtyMask x' \<and> character (newLine x') \<noteq> 0)"
        using False by (metis add1_zle_eq order_le_less)
      show ?thesis
        by (subst scanLine.simps) (use xl False 1(3) split in simp)
    next
      case True
      note m = True
      show ?thesis
      proof (cases "character (newLine x) = 0")
        case True
        have split: "(\<exists>x'. x \<le> x' \<and> x' < ctu \<and> maskAt dirtyMask x' \<and> character (newLine x') \<noteq> 0)
          = (\<exists>x'. x + 1 \<le> x' \<and> x' < ctu \<and> maskAt dirtyMask x' \<and> character (newLine x') \<noteq> 0)"
          using True by (metis add1_zle_eq order_le_less)
        show ?thesis
          by (subst scanLine.simps) (use xl m True 1(1) split in simp)
      next
        case False
        have "\<exists>x'. x \<le> x' \<and> x' < ctu \<and> maskAt dirtyMask x' \<and> character (newLine x') \<noteq> 0"
          using xl m False by blast
        then show ?thesis
          by (subst scanLine.simps) (use xl m False 1(2) in simp)
      qed
    qed
  qed
qed

lemma lineUpdates_cong:
  assumes "\<And>x. 0 \<le> x \<Longrightarrow> x < ctu \<Longrightarrow> d1 x = d2 x"
  shows "lineUpdates st d1 newLine ctu y = lineUpdates st d2 newLine ctu y"
proof -
  have "columnDiffers st d1 newLine y x = columnDiffers st d2 newLine y x"
    if "0 \<le> x" "x < ctu" for x
    using assms [OF that] by (simp add: columnDiffers_def)
  then show ?thesis unfolding lineUpdates_def by metis
qed

lemma scan_from_zero:
  "scUpdateLine (scanLine st newLine (lineDirtyMask st displayedLine newLine ctu y) ctu y 0
      \<lparr>scHasBlinker = hb, scIsIMEdit = e, scIsIMSel = s, scUpdateLine = False\<rparr>)
   = (\<exists>x'. 0 \<le> x' \<and> x' < ctu \<and> character (newLine x') \<noteq> 0 \<and>
          (\<exists>x. 0 \<le> x \<and> x < ctu \<and> x' - 1 \<le> x \<and> x \<le> x' + 1
               \<and> columnDiffers st displayedLine newLine y x))"
proof -
  have "maskAt (lineDirtyMask st displayedLine newLine ctu y) x'
        = (\<exists>x. 0 \<le> x \<and> x < ctu \<and> x' - 1 \<le> x \<and> x \<le> x' + 1
               \<and> columnDiffers st displayedLine newLine y x)"
    if "0 \<le> x'" "x' < ctu" for x'
    using that by (intro maskAt_lineDirtyMask) simp_all
  then show ?thesis
    unfolding scanLine_updateLine by auto
qed

lemma upDirtyRegion_step:
  "upDirtyRegion (updateLineStep st newimg wc ctu y up)
     = upDirtyRegion up @
       (if lineUpdates st (\<lambda>x. cellAt (upImage up) (y * columns st + x))
             (\<lambda>x. cellAt newimg (y * wc + x)) ctu y
        then [lineRect st ctu y] else [])"
  by (simp add: updateLineStep_def Let_def scan_from_zero lineUpdates_def lineRect_def)

lemma upDirtyRegion_fold:
  assumes "0 \<le> ctu" "ctu \<le> columns st"
  shows "upDirtyRegion (fold (\<lambda>y. updateLineStep st newimg wc ctu (int y)) [0..<k] up)
     = upDirtyRegion up @
       concat (map (\<lambda>y. if lineUpdates st (\<lambda>x. cellAt (upImage up) (int y * columns st + x))
                               (\<lambda>x. cellAt newimg (int y * wc + x)) ctu (int y)
                         then [lineRect st ctu (int y)] else []) [0..<k])"
proof (induction k)
  case 0
  then show ?case by simp
next
  case (Suc k)
  let ?prev = "fold (\<lambda>y. updateLineStep st newimg wc ctu (int y)) [0..<k] up"
  have same: "cellAt (upImage ?prev) (int k * columns st + x)
                = cellAt (upImage up) (int k * columns st + x)" if "0 \<le> x" for x
    using that assms by (intro fold_step_untouched) simp_all
  have "lineUpdates st (\<lambda>x. cellAt (upImage ?prev) (int k * columns st + x))
             (\<lambda>x. cellAt newimg (int k * wc + x)) ctu (int k)
        = lineUpdates st (\<lambda>x. cellAt (upImage up) (int k * columns st + x))
             (\<lambda>x. cellAt newimg (int k * wc + x)) ctu (int k)"
    by (rule lineUpdates_cong) (simp add: same)
  then show ?case using Suc by (simp add: upDirtyRegion_step)
qed

lemma updateCalls_diffLines:
  assumes "0 < columns st"
  shows "\<exists>extra. updateCalls (diffLines st img newimg wl wc)
     = updateCalls st @
        [lineRegion st img newimg wc (min (columns st) (max 0 wc))
           (nat (min (lines st) (max 0 wl))) @ extra]
     \<and> (min (lines st) (max 0 wl) \<ge> usedLines st
          \<and> min (columns st) (max 0 wc) \<ge> usedColumns st \<longrightarrow> extra = [])"
proof -
  define ctu where "ctu = min (columns st) (max 0 wc)"
  have c: "0 \<le> ctu" "ctu \<le> columns st" using assms by (simp_all add: ctu_def)
  show ?thesis
    unfolding diffLines_def Let_def lineRegion_def ctu_def [symmetric]
    by (auto simp: upDirtyRegion_fold [OF c])
qed

lemma lineRect_in_lineRegion:
  assumes "y < k"
    and "lineUpdates st (\<lambda>x. cellAt img (int y * columns st + x))
           (\<lambda>x. cellAt newimg (int y * wc + x)) ctu (int y)"
  shows "lineRect st ctu (int y) \<in> set (lineRegion st img newimg wc ctu k)"
  using assms unfolding lineRegion_def by auto

lemma lineRect_covers_cell:
  assumes "0 \<le> fontWidth st" "0 \<le> x" "x < ctu"
  shows "rectContains (lineRect st ctu y) (cellArea st x y)"
proof -
  have "0 \<le> fontWidth st * x" using assms by simp
  moreover have "fontWidth st * (x + 1) \<le> fontWidth st * ctu"
    using assms by (intro mult_left_mono) simp_all
  ultimately show ?thesis
    by (simp add: rectContains_def lineRect_def cellArea_def algebra_simps)
qed

lemma diffLines_keeps [simp]:
  "bX (diffLines st img newimg wl wc) = bX st"
  "bY (diffLines st img newimg wl wc) = bY st"
  "fontWidth (diffLines st img newimg wl wc) = fontWidth st"
  "fontHeight (diffLines st img newimg wl wc) = fontHeight st"
  "contentsRect (diffLines st img newimg wl wc) = contentsRect st"
  by (simp_all add: diffLines_def Let_def)

lemma cellArea_cong:
  "bX a = bX b \<Longrightarrow> bY a = bY b \<Longrightarrow> fontWidth a = fontWidth b \<Longrightarrow> fontHeight a = fontHeight b
   \<Longrightarrow> contentsRect a = contentsRect b \<Longrightarrow> cellArea a x y = cellArea b x y"
  by (simp add: cellArea_def)

lemma lineRect_cong:
  "bX a = bX b \<Longrightarrow> bY a = bY b \<Longrightarrow> fontWidth a = fontWidth b \<Longrightarrow> fontHeight a = fontHeight b
   \<Longrightarrow> contentsRect a = contentsRect b \<Longrightarrow> lineRect a c y = lineRect b c y"
  by (simp add: lineRect_def)

text \<open>
  Claim C2, as the code has it.  The scan that marks a line for repainting is skipped
  while the display is resizing, and it passes over cells whose character code is 0:
  on the two-line display the first cell differs from the incoming one, and the reported
  region does not cover it, once with a resize in progress and once with an incoming
  first cell of character code 0.
\<close>

theorem updateImage_unreported_counterexample:
  "map_sum id (lastRegionCovers 0 0) (updateImage abResizing) = Inr False
   \<and> map_sum id (lastRegionCovers 0 0) (updateImage zeroIncoming) = Inr False
   \<and> cellOf 0x61 \<noteq> cellOf 0x78 \<and> cellOf 0x61 \<noteq> cellOf 0
   \<and> imageBuf abResizing = Some [cellOf 0x61, cellOf 0x62, blankCell]
   \<and> getImage (screenWindow abResizing) = [cellOf 0x78, cellOf 0x62, blankCell]
   \<and> imageBuf zeroIncoming = Some [cellOf 0x61, cellOf 0x62, blankCell]
   \<and> getImage (screenWindow zeroIncoming) = [cellOf 0, cellOf 0x62, blankCell]"
  by code_simp

text \<open>
  Claim C2, amended.  When no resize is in progress, every cell of the updated lines and
  columns at which the displayed image (after the pending scroll shift) differs from the
  incoming one lies within the reported dirty region, provided the incoming cell itself or
  its left or right neighbour within the updated columns has a non-zero character code.
\<close>

theorem updateImage_reports_changed_cell:
  assumes img: "imageBuf st = Some img0"
    and alloc: "imageSize st = lines st * columns st" "int (length img0) = imageSize st + 1"
    and dims: "0 < lines st" "0 < columns st" "usedLines st \<le> lines st"
              "0 \<le> usedColumns st" "usedColumns st \<le> columns st"
    and scroll: "scrollImage st (scrollCount (screenWindow st)) = Inr st1"
                "imageBuf st1 = Some imgA"
    and nores: "\<not> resizing st"
    and fw: "0 \<le> fontWidth st"
    and cell: "0 \<le> y" "y < min (lines st) (max 0 (windowLines (screenWindow st)))"
              "0 \<le> x" "x < min (columns st) (max 0 (windowColumns (screenWindow st)))"
    and diff: "cellAt imgA (loc st x y)
                 \<noteq> cellAt (getImage (screenWindow st)) (y * windowColumns (screenWindow st) + x)"
    and nz: "0 \<le> x'" "x' < min (columns st) (max 0 (windowColumns (screenWindow st)))"
            "x - 1 \<le> x'" "x' \<le> x + 1"
            "character (cellAt (getImage (screenWindow st))
                          (y * windowColumns (screenWindow st) + x')) \<noteq> 0"
  shows "\<exists>st' region. updateImage st = Inr st' \<and> updateCalls st' = updateCalls st @ [region]
           \<and> regionCovers region (cellArea st' x y)"
proof -
  from scrollImage_shape [OF img alloc(1) dims(3,4,5,2), of "scrollCount (screenWindow st)"]
  obtain img1 sc where
    s1: "scrollImage st (scrollCount (screenWindow st))
           = Inr (st\<lparr>imageBuf := Some img1, scrollCalls := sc\<rparr>)" by blast
  with scroll have st1: "st1 = st\<lparr>imageBuf := Some img1, scrollCalls := sc\<rparr>" by simp
  with scroll have ia: "img1 = imgA" by simp
  let ?st4 = "setScroll (st\<lparr>imageBuf := Some imgA, scrollCalls := sc,
                 screenWindow := (screenWindow st)\<lparr>scrollCount := 0\<rparr>\<rparr>)
               (currentLine (screenWindow st)) (lineCount (screenWindow st))"
  let ?B = "getImage (screenWindow st)"
  let ?wl = "windowLines (screenWindow st)" and ?wc = "windowColumns (screenWindow st)"
  define ctu where "ctu = min (columns st) (max 0 ?wc)"
  define ltu where "ltu = min (lines st) (max 0 ?wl)"
  have f4: "imageBuf ?st4 = Some imgA" "lines ?st4 = lines st" "columns ?st4 = columns st"
    "usedLines ?st4 = usedLines st" "usedColumns ?st4 = usedColumns st"
    "resizing ?st4 = resizing st" "updateCalls ?st4 = updateCalls st"
    "bX ?st4 = bX st" "bY ?st4 = bY st" "fontWidth ?st4 = fontWidth st"
    "fontHeight ?st4 = fontHeight st" "contentsRect ?st4 = contentsRect st"
    by (simp_all add: setScroll_def)
  have run: "updateImage st = Inr (diffLines ?st4 imgA ?B ?wl ?wc)"
    using s1 ia f4 dims by (simp add: updateImage_def Let_def)
  obtain extra where reg: "updateCalls (diffLines ?st4 imgA ?B ?wl ?wc)
     = updateCalls st @ [lineRegion ?st4 imgA ?B ?wc ctu (nat ltu) @ extra]"
    using updateCalls_diffLines [of ?st4 imgA ?B ?wl ?wc] dims(2) f4
    unfolding ctu_def ltu_def by auto
  have cd: "columnDiffers ?st4 (\<lambda>x. cellAt imgA (int (nat y) * columns ?st4 + x))
             (\<lambda>x. cellAt ?B (int (nat y) * ?wc + x)) (int (nat y)) x"
    using diff cell(1) f4(3) unfolding columnDiffers_def loc_def by auto
  have xr: "0 \<le> x" "x < ctu" "x' - 1 \<le> x" "x \<le> x' + 1" "0 \<le> x'" "x' < ctu"
    using cell nz by (simp_all add: ctu_def)
  have nzc: "character (cellAt ?B (int (nat y) * ?wc + x')) \<noteq> 0" using nz(5) cell(1) by simp
  have lu: "lineUpdates ?st4 (\<lambda>x. cellAt imgA (int (nat y) * columns ?st4 + x))
             (\<lambda>x. cellAt ?B (int (nat y) * ?wc + x)) ctu (int (nat y))"
    unfolding lineUpdates_def using nores f4(6) xr nzc cd by blast
  have yk: "nat y < nat ltu" using cell by (simp add: ltu_def)
  have "lineRect ?st4 ctu (int (nat y)) \<in> set (lineRegion ?st4 imgA ?B ?wc ctu (nat ltu))"
    using yk lu by (rule lineRect_in_lineRegion)
  then have mem: "lineRect ?st4 ctu y \<in> set (lineRegion ?st4 imgA ?B ?wc ctu (nat ltu) @ extra)"
    using cell(1) by simp
  have "rectContains (lineRect ?st4 ctu y) (cellArea ?st4 x y)"
    using fw f4(10) xr by (intro lineRect_covers_cell) simp_all
  moreover have "cellArea (diffLines ?st4 imgA ?B ?wl ?wc) x y = cellArea ?st4 x y"
    by (rule cellArea_cong) simp_all
  ultimately have "regionCovers (lineRegion ?st4 imgA ?B ?wc ctu (nat ltu) @ extra)
                     (cellArea (diffLines ?st4 imgA ?B ?wl ?wc) x y)"
    using mem unfolding regionCovers_def list_ex_iff by metis
  then show ?thesis using run reg by blast
qed

theorem updateImage_reports_changed_cell_witness:
  "imageBuf abIncoming = Some [cellOf 0x61, cellOf 0x62, blankCell]
   \<and> getImage (screenWindow abIncoming) = [cellOf 0x78, cellOf 0x62, blankCell]
   \<and> \<not> resizing abIncoming
   \<and> (\<exists>st' region. updateImage abIncoming = Inr st' \<and> updateCalls st' = [region]
         \<and> regionCovers region (cellArea st' 0 0))"
proof -
  let ?A = "[cellOf 0x61, cellOf 0x62, blankCell]"
  have h: "imageBuf abIncoming = Some ?A"
    "imageSize abIncoming = lines abIncoming * columns abIncoming"
    "int (length ?A) = imageSize abIncoming + 1"
    "0 < lines abIncoming" "0 < columns abIncoming" "usedLines abIncoming \<le> lines abIncoming"
    "0 \<le> usedColumns abIncoming" "usedColumns abIncoming \<le> columns abIncoming"
    by (simp_all add: abIncoming_def abGrid_def gridDisplay_def initialDisplay_def)
  have v: "lines abIncoming = 2" "columns abIncoming = 1"
    "windowLines (screenWindow abIncoming) = 2" "windowColumns (screenWindow abIncoming) = 1"
    "getImage (screenWindow abIncoming) = [cellOf 0x78, cellOf 0x62, blankCell]"
    "scrollCount (screenWindow abIncoming) = 0" "updateCalls abIncoming = []"
    by (simp_all add: abIncoming_def abGrid_def gridDisplay_def initialDisplay_def)
  have s: "scrollImage abIncoming (scrollCount (screenWindow abIncoming)) = Inr abIncoming"
    by (simp add: v scrollImage_def)
  have q: "\<not> resizing abIncoming" "0 \<le> fontWidth abIncoming"
    by (simp_all add: abIncoming_def abGrid_def gridDisplay_def initialDisplay_def)
  have c: "(0::int) \<le> 0" "0 < min (lines abIncoming) (max 0 (windowLines (screenWindow abIncoming)))"
    "0 < min (columns abIncoming) (max 0 (windowColumns (screenWindow abIncoming)))"
    "(0::int) - 1 \<le> 0" "(0::int) \<le> 0 + 1"
    by (simp_all add: v)
  have d: "cellAt ?A (loc abIncoming 0 0)
      \<noteq> cellAt (getImage (screenWindow abIncoming)) (0 * windowColumns (screenWindow abIncoming) + 0)"
    by (simp add: v cellAt_def loc_def cellOf_def blankCell_def)
  have n: "character (cellAt (getImage (screenWindow abIncoming))
                          (0 * windowColumns (screenWindow abIncoming) + 0)) \<noteq> 0"
    by (simp add: v cellAt_def cellOf_def)
  from updateImage_reports_changed_cell [OF h s h(1) q c(1,2,1,3) d c(1,3,4,5) n]
  show ?thesis using h(1) v q by auto
qed



lemma character_cellOf [simp]: "character (cellOf c) = c"
  by (simp add: cellOf_def)

lemma character_blankCell [simp]: "character blankCell = 0x20"
  by (simp add: blankCell_def)



section \<open>Properties of the word selection\<close>


lemma selectionCalls_sendSelection [simp]:
  "selectionCalls (screenWindow (sendSelection st c)) = selectionCalls (screenWindow st) @ [c]"
  by (simp add: sendSelection_def)

lemma sendSelection_fields [simp]:
  "imageBuf (sendSelection st c) = imageBuf st"
  "columns (sendSelection st c) = columns st"
  "lines (sendSelection st c) = lines st"
  "usedColumns (sendSelection st c) = usedColumns st"
  "usedLines (sendSelection st c) = usedLines st"
  "lineProperties (sendSelection st c) = lineProperties st"
  "wordCharacters (sendSelection st c) = wordCharacters st"
  "scrollBar (sendSelection st c) = scrollBar st"
  "iPntSel (sendSelection st c) = iPntSel st"
  "cutToBeginningOfLine (sendSelection st c) = cutToBeginningOfLine st"
  "imageSize (sendSelection st c) = imageSize st"
  "actSel (sendSelection st c) = actSel st"
  by (simp_all add: sendSelection_def)

lemma charClass_cong:
  "wordCharacters a = wordCharacters b \<Longrightarrow> charClass qc a ch = charClass qc b ch"
  by (simp add: charClass_def)

lemma lineWrapped_cong:
  "lineProperties a = lineProperties b \<Longrightarrow> lineWrapped a i = lineWrapped b i"
  by (simp add: lineWrapped_def lineProperty_def)





section \<open>Properties of the line selection\<close>







lemma lineUp_cong: "lineProperties a = lineProperties b \<Longrightarrow> lineUp a y = lineUp b y"
proof (induction a y rule: lineUp.induct)
  case (1 st y)
  have "lineUp st y = (if y > 0 \<and> lineWrapped st (y - 1) then lineUp st (y - 1) else y)"
    by (rule lineUp.simps)
  also have "\<dots> = (if y > 0 \<and> lineWrapped b (y - 1) then lineUp b (y - 1) else y)"
    using 1 lineWrapped_cong [of st b] by auto
  also have "\<dots> = lineUp b y" by (rule lineUp.simps [symmetric])
  finally show ?case .
qed

lemma lineDown_cong:
  "lineProperties a = lineProperties b \<Longrightarrow> lineDown a limit y = lineDown b limit y"
proof (induction a limit y rule: lineDown.induct)
  case (1 st limit y)
  have "lineDown st limit y
          = (if y < limit \<and> lineWrapped st y then lineDown st limit (y + 1) else y)"
    by (rule lineDown.simps)
  also have "\<dots> = (if y < limit \<and> lineWrapped b y then lineDown b limit (y + 1) else y)"
    using 1 lineWrapped_cong [of st b] by auto
  also have "\<dots> = lineDown b limit y" by (rule lineDown.simps [symmetric])
  finally show ?case .
qed

lemma lineUp_updates [simp]:
  "lineUp (iPntSel_update f1 st) y = lineUp st y"
  "lineUp (screenWindow_update f2 st) y = lineUp st y"
  "lineUp (lineSelectionMode_update f3 st) y = lineUp st y"
  "lineUp (wordSelectionMode_update f3 st) y = lineUp st y"
  "lineUp (actSel_update f4 st) y = lineUp st y"
  "lineUp (tripleSelBegin_update f1 st) y = lineUp st y"
  by (rule lineUp_cong, simp)+

lemma lineDown_updates [simp]:
  "lineDown (iPntSel_update f1 st) limit y = lineDown st limit y"
  "lineDown (screenWindow_update f2 st) limit y = lineDown st limit y"
  "lineDown (lineSelectionMode_update f3 st) limit y = lineDown st limit y"
  "lineDown (wordSelectionMode_update f3 st) limit y = lineDown st limit y"
  "lineDown (actSel_update f4 st) limit y = lineDown st limit y"
  "lineDown (tripleSelBegin_update f1 st) limit y = lineDown st limit y"
  by (rule lineDown_cong, simp)+




section \<open>Properties of the selection order\<close>






lemma pointLe_refl [simp]: "pointLe a a"
  by (simp add: pointLe_def)












end
